theory Spec2Isabelle
  imports Complex_Main
begin

section \<open>JavaScript values\<close>

text \<open>
  The program is one JavaScript module, \<^verbatim>\<open>src/main.js\<close>. Its entry point \<^verbatim>\<open>main(dtoIn)\<close>
  receives an arbitrary JavaScript value, so the model starts from the values themselves.

  A Number is a not-a-number, an infinity or a finite value. Finite doubles are modelled as
  reals with exact arithmetic: rounding and the sign of zero are not modelled.
\<close>

datatype jsnum = NaN | PosInf | NegInf | Fin real

text \<open>
  A value is \<^verbatim>\<open>undefined\<close>, \<^verbatim>\<open>null\<close>, a boolean, a number, a string or a plain data
  object given by its own properties in order (the first binding of a name counts).
  Strings are kept as the UTF-8 bytes of the source file.
\<close>

datatype jsval =
    Undefined
  | Null
  | Bool bool
  | Num jsnum
  | Str string
  | Obj "(string \<times> jsval) list"

datatype error = TypeError | RangeError

subsection \<open>Arithmetic and comparison on Numbers\<close>

fun js_neg :: "jsnum \<Rightarrow> jsnum" where
  "js_neg NaN = NaN"
| "js_neg PosInf = NegInf"
| "js_neg NegInf = PosInf"
| "js_neg (Fin a) = Fin (- a)"

fun js_add :: "jsnum \<Rightarrow> jsnum \<Rightarrow> jsnum" where
  "js_add NaN _ = NaN"
| "js_add _ NaN = NaN"
| "js_add PosInf NegInf = NaN"
| "js_add NegInf PosInf = NaN"
| "js_add PosInf _ = PosInf"
| "js_add _ PosInf = PosInf"
| "js_add NegInf _ = NegInf"
| "js_add _ NegInf = NegInf"
| "js_add (Fin a) (Fin b) = Fin (a + b)"

definition js_sub :: "jsnum \<Rightarrow> jsnum \<Rightarrow> jsnum" where
  "js_sub a b = js_add a (js_neg b)"

fun js_mul :: "jsnum \<Rightarrow> jsnum \<Rightarrow> jsnum" where
  "js_mul NaN _ = NaN"
| "js_mul _ NaN = NaN"
| "js_mul (Fin a) (Fin b) = Fin (a * b)"
| "js_mul (Fin a) PosInf = (if a = 0 then NaN else if 0 < a then PosInf else NegInf)"
| "js_mul (Fin a) NegInf = (if a = 0 then NaN else if 0 < a then NegInf else PosInf)"
| "js_mul PosInf (Fin b) = (if b = 0 then NaN else if 0 < b then PosInf else NegInf)"
| "js_mul NegInf (Fin b) = (if b = 0 then NaN else if 0 < b then NegInf else PosInf)"
| "js_mul PosInf PosInf = PosInf"
| "js_mul PosInf NegInf = NegInf"
| "js_mul NegInf PosInf = NegInf"
| "js_mul NegInf NegInf = PosInf"

text \<open>\<^verbatim>\<open>Math.floor\<close>.\<close>

fun js_floor :: "jsnum \<Rightarrow> jsnum" where
  "js_floor (Fin a) = Fin (of_int \<lfloor>a\<rfloor>)"
| "js_floor n = n"

text \<open>The operators \<^verbatim>\<open><\<close> and \<^verbatim>\<open><=\<close> on two Numbers: false as soon as one is NaN.\<close>

fun js_lt :: "jsnum \<Rightarrow> jsnum \<Rightarrow> bool" where
  "js_lt NaN _ = False"
| "js_lt _ NaN = False"
| "js_lt (Fin a) (Fin b) = (a < b)"
| "js_lt _ NegInf = False"
| "js_lt PosInf _ = False"
| "js_lt NegInf _ = True"
| "js_lt _ PosInf = True"


subsection \<open>Operations on values\<close>

text \<open>The \<^verbatim>\<open>typeof\<close> operator.\<close>

fun typeof :: "jsval \<Rightarrow> string" where
  "typeof Undefined = ''undefined''"
| "typeof Null = ''object''"
| "typeof (Bool _) = ''boolean''"
| "typeof (Num _) = ''number''"
| "typeof (Str _) = ''string''"
| "typeof (Obj _) = ''object''"

text \<open>Conversion to a boolean, as \<^verbatim>\<open>!v\<close> applies it: \<open>\<not> truthy v\<close> models \<^verbatim>\<open>!v\<close>.\<close>

fun truthy :: "jsval \<Rightarrow> bool" where
  "truthy Undefined = False"
| "truthy Null = False"
| "truthy (Bool b) = b"
| "truthy (Num n) = (n \<noteq> NaN \<and> n \<noteq> Fin 0)"
| "truthy (Str s) = (s \<noteq> [])"
| "truthy (Obj _) = True"

text \<open>
  Reading a property \<^verbatim>\<open>v.k\<close> (and one name of a destructuring pattern). On
  \<^verbatim>\<open>undefined\<close> and \<^verbatim>\<open>null\<close> it throws a TypeError; on an object it gives the own
  property or \<^verbatim>\<open>undefined\<close>; on the other primitives it gives \<^verbatim>\<open>undefined\<close>. The program
  reads the names \<^verbatim>\<open>count\<close>, \<^verbatim>\<open>age\<close>, \<^verbatim>\<open>min\<close> and \<^verbatim>\<open>max\<close> only, which no built-in
  prototype defines.
\<close>

fun getProp :: "jsval \<Rightarrow> string \<Rightarrow> error + jsval" where
  "getProp Undefined k = Inl TypeError"
| "getProp Null k = Inl TypeError"
| "getProp (Obj ps) k = Inr (case map_of ps k of None \<Rightarrow> Undefined | Some v \<Rightarrow> v)"
| "getProp v k = Inr Undefined"

text \<open>
  Reading an array element \<^verbatim>\<open>xs[k]\<close> where \<open>k\<close> is a Number: the element when \<open>k\<close> is an
  integer index of the array, \<^verbatim>\<open>undefined\<close> otherwise.
\<close>

definition arrayGet :: "jsval list \<Rightarrow> jsnum \<Rightarrow> jsval" where
  "arrayGet xs k =
     (case k of
        Fin r \<Rightarrow> (if 0 \<le> r \<and> r < real (length xs) \<and> of_int \<lfloor>r\<rfloor> = r
                   then xs ! nat \<lfloor>r\<rfloor> else Undefined)
      | _ \<Rightarrow> Undefined)"

section \<open>The platform\<close>

text \<open>
  What the program takes from its JavaScript engine is a parameter of the model:
  \<^item> \<open>random p k\<close> is the value of the \<open>k\<close>-th call of \<^verbatim>\<open>Math.random()\<close> of the run;
  \<^item> \<open>clock p k\<close> is the time value (milliseconds since the epoch) of the \<open>k\<close>-th
    \<^verbatim>\<open>new Date()\<close> of the run;
  \<^item> \<open>local_year p t\<close> is \<^verbatim>\<open>getFullYear()\<close> of a date with time value \<open>t\<close> (the year in
    the local time zone);
  \<^item> \<open>with_year p t y\<close> is the time value \<^verbatim>\<open>setFullYear(y)\<close> computes for a date with
    time value \<open>t\<close> and an integer year \<open>y\<close>, before it is clipped to the range of dates;
  \<^item> \<open>string_to_number p s\<close> is the Number a string converts to.
\<close>

record platform =
  random :: "nat \<Rightarrow> real"
  clock :: "nat \<Rightarrow> int"
  local_year :: "int \<Rightarrow> int"
  with_year :: "int \<Rightarrow> int \<Rightarrow> int"
  string_to_number :: "string \<Rightarrow> jsnum"

text \<open>How many random numbers and clock readings the run has consumed.\<close>

record world =
  rpos :: nat
  cpos :: nat

text \<open>
  Conversion to a Number, as the operator \<^verbatim>\<open>-\<close> applies it to an operand. A plain object
  converts through \<^verbatim>\<open>valueOf\<close> and \<^verbatim>\<open>toString\<close>: the inherited ones give
  \<^verbatim>\<open>"[object Object]"\<close> and so NaN; an own property \<^verbatim>\<open>toString\<close> (never callable here)
  hides the inherited one and the conversion throws a TypeError.
\<close>

fun toNumber :: "platform \<Rightarrow> jsval \<Rightarrow> error + jsnum" where
  "toNumber p Undefined = Inr NaN"
| "toNumber p Null = Inr (Fin 0)"
| "toNumber p (Bool b) = Inr (Fin (if b then 1 else 0))"
| "toNumber p (Num n) = Inr n"
| "toNumber p (Str s) = Inr (string_to_number p s)"
| "toNumber p (Obj ps) = (if ''toString'' \<in> fst ` set ps then Inl TypeError else Inr NaN)"

section \<open>The employee generator\<close>

text \<open>
  An employee, as \<^verbatim>\<open>main\<close> builds it: an object with five properties. \<open>birthdate\<close> is
  the string that \<^verbatim>\<open>toISOString()\<close> returns.
\<close>

record employee =
  gender :: jsval
  birthdate :: jsval
  name :: jsval
  surname :: jsval
  workload :: jsval

subsection \<open>Reference lists\<close>

definition genders :: "jsval list" where
  "genders = [Str ''male'', Str ''female'']"

definition workloads :: "jsval list" where
  "workloads = [Num (Fin 10), Num (Fin 20), Num (Fin 30), Num (Fin 40)]"

definition maleNames :: "jsval list" where
  "maleNames =
     [Str ''Jan'',
      Str ''Petr'',
      Str ''Jakub'',
      Str ''Michal'',
      Str (''Ond'' @ [CHR 0xC5, CHR 0x99] @ ''ej''),
      Str ''David'',
      Str (''Tom'' @ [CHR 0xC3, CHR 0xA1, CHR 0xC5, CHR 0xA1]),
      Str ''Filip'',
      Str ''Martin'',
      Str (''Luk'' @ [CHR 0xC3, CHR 0xA1, CHR 0xC5, CHR 0xA1]),
      Str ''Marek'',
      Str ''Karel'',
      Str (''V'' @ [CHR 0xC3, CHR 0xA1] @ ''clav''),
      Str ''Roman'',
      Str ''Adam'',
      Str (''Mat'' @ [CHR 0xC4, CHR 0x9B] @ ''j'')]"

definition femaleNames :: "jsval list" where
  "femaleNames =
     [Str ''Lucie'',
      Str ''Marie'',
      Str ''Anna'',
      Str ''Tereza'',
      Str ''Eva'',
      Str (''Kate'' @ [CHR 0xC5, CHR 0x99] @ ''ina''),
      Str ''Barbora'',
      Str ''Veronika'',
      Str (''Ad'' @ [CHR 0xC3, CHR 0xA9] @ ''la''),
      Str (''Krist'' @ [CHR 0xC3, CHR 0xBD] @ ''na''),
      Str (''Karol'' @ [CHR 0xC3, CHR 0xAD] @ ''na''),
      Str ''Marcela'',
      Str ''Hana'',
      Str ''Zuzana'',
      Str ''Jana'',
      Str ''Nikola'']"

definition maleSurnames :: "jsval list" where
  "maleSurnames =
     [Str (''Nov'' @ [CHR 0xC3, CHR 0xA1] @ ''k''),
      Str ''Svoboda'',
      Str (''Novotn'' @ [CHR 0xC3, CHR 0xBD]),
      Str (''Dvo'' @ [CHR 0xC5, CHR 0x99, CHR 0xC3, CHR 0xA1] @ ''k''),
      Str ([CHR 0xC4, CHR 0x8C] @ ''ern'' @ [CHR 0xC3, CHR 0xBD]),
      Str (''Proch'' @ [CHR 0xC3, CHR 0xA1] @ ''zka''),
      Str (''Ku'' @ [CHR 0xC4, CHR 0x8D] @ ''era''),
      Str (''Vesel'' @ [CHR 0xC3, CHR 0xBD]),
      Str (''Hor'' @ [CHR 0xC3, CHR 0xA1] @ ''k''),
      Str (''N'' @ [CHR 0xC4, CHR 0x9B] @ ''mec''),
      Str ''Marek'',
      Str (''Pokorn'' @ [CHR 0xC3, CHR 0xBD]),
      Str (''Pavl'' @ [CHR 0xC3, CHR 0xAD] @ ''k''),
      Str (''S'' @ [CHR 0xC3, CHR 0xBD] @ ''kora''),
      Str (''Kr'' @ [CHR 0xC3, CHR 0xA1] @ ''l''),
      Str (''R'' @ [CHR 0xC5, CHR 0xAF, CHR 0xC5, CHR 0xBE] @ ''i'' @ [CHR 0xC4, CHR 0x8D] @ ''ka'')]"

definition femaleSurnames :: "jsval list" where
  "femaleSurnames =
     [Str (''Nov'' @ [CHR 0xC3, CHR 0xA1] @ ''kov'' @ [CHR 0xC3, CHR 0xA1]),
      Str (''Svobodov'' @ [CHR 0xC3, CHR 0xA1]),
      Str (''Novotn'' @ [CHR 0xC3, CHR 0xA1]),
      Str (''Dvo'' @ [CHR 0xC5, CHR 0x99, CHR 0xC3, CHR 0xA1] @ ''kov'' @ [CHR 0xC3, CHR 0xA1]),
      Str ([CHR 0xC4, CHR 0x8C] @ ''ern'' @ [CHR 0xC3, CHR 0xA1]),
      Str (''Proch'' @ [CHR 0xC3, CHR 0xA1] @ ''zkov'' @ [CHR 0xC3, CHR 0xA1]),
      Str (''Ku'' @ [CHR 0xC4, CHR 0x8D] @ ''erov'' @ [CHR 0xC3, CHR 0xA1]),
      Str (''Vesel'' @ [CHR 0xC3, CHR 0xA1]),
      Str (''Hor'' @ [CHR 0xC3, CHR 0xA1] @ ''kov'' @ [CHR 0xC3, CHR 0xA1]),
      Str (''N'' @ [CHR 0xC4, CHR 0x9B] @ ''mcov'' @ [CHR 0xC3, CHR 0xA1]),
      Str (''Markov'' @ [CHR 0xC3, CHR 0xA1]),
      Str (''Pokorn'' @ [CHR 0xC3, CHR 0xA1]),
      Str (''Pavl'' @ [CHR 0xC3, CHR 0xAD] @ ''kov'' @ [CHR 0xC3, CHR 0xA1]),
      Str (''S'' @ [CHR 0xC3, CHR 0xBD] @ ''korov'' @ [CHR 0xC3, CHR 0xA1]),
      Str (''Kr'' @ [CHR 0xC3, CHR 0xA1] @ ''lov'' @ [CHR 0xC3, CHR 0xA1]),
      Str (''R'' @ [CHR 0xC5, CHR 0xAF, CHR 0xC5, CHR 0xBE] @ ''i'' @ [CHR 0xC4, CHR 0x8D] @ ''kov'' @ [CHR 0xC3, CHR 0xA1])]"

subsection \<open>Bounded random integer\<close>

text \<open>\<^verbatim>\<open>randomInt(max)\<close>: \<^verbatim>\<open>Math.floor(Math.random() * max)\<close>, consuming one random number.\<close>

definition randomInt :: "platform \<Rightarrow> jsnum \<Rightarrow> world \<Rightarrow> jsnum \<times> world" where
  "randomInt p mx w =
     (js_floor (js_mul (Fin (random p (rpos w))) mx), w\<lparr>rpos := Suc (rpos w)\<rparr>)"

subsection \<open>Categorical field selectors\<close>

text \<open>
  Each selector returns the entry at \<open>index\<close> while the index is inside its list, and the
  entry at a random position afterwards. \<open>index\<close> is the loop counter of \<^verbatim>\<open>main\<close>, a natural
  number.
\<close>

definition getGender :: "platform \<Rightarrow> nat \<Rightarrow> world \<Rightarrow> jsval \<times> world" where
  "getGender p index w =
     (if index < length genders then (genders ! index, w)
      else (let (k, w') = randomInt p (Fin (real (length genders))) w
            in (arrayGet genders k, w')))"

definition getWorkload :: "platform \<Rightarrow> nat \<Rightarrow> world \<Rightarrow> jsval \<times> world" where
  "getWorkload p index w =
     (if index < length workloads then (workloads ! index, w)
      else (let (k, w') = randomInt p (Fin (real (length workloads))) w
            in (arrayGet workloads k, w')))"

text \<open>\<^verbatim>\<open>gender === "male"\<close> holds exactly when the value is that string.\<close>

definition getName :: "platform \<Rightarrow> nat \<Rightarrow> jsval \<Rightarrow> world \<Rightarrow> jsval \<times> world" where
  "getName p index g w =
     (let list = (if g = Str ''male'' then maleNames else femaleNames)
      in if index < length list then (list ! index, w)
         else (let (k, w') = randomInt p (Fin (real (length list))) w
               in (arrayGet list k, w')))"

definition getSurname :: "platform \<Rightarrow> nat \<Rightarrow> jsval \<Rightarrow> world \<Rightarrow> jsval \<times> world" where
  "getSurname p index g w =
     (let list = (if g = Str ''male'' then maleSurnames else femaleSurnames)
      in if index < length list then (list ! index, w)
         else (let (k, w') = randomInt p (Fin (real (length list))) w
               in (arrayGet list k, w')))"

subsection \<open>Dates\<close>

text \<open>Conversion of a finite Number to an integer: truncation towards zero.\<close>

definition toInteger :: "real \<Rightarrow> int" where
  "toInteger r = (if r < 0 then \<lceil>r\<rceil> else \<lfloor>r\<rfloor>)"

text \<open>
  The time value of \<^verbatim>\<open>new Date(v)\<close> for a Number \<open>v\<close>: NaN (an invalid date) when \<open>v\<close> is
  not finite or beyond 8.64e15 milliseconds from the epoch, the integer part of \<open>v\<close>
  otherwise.
\<close>

definition timeClip :: "jsnum \<Rightarrow> jsnum" where
  "timeClip v =
     (case v of
        Fin r \<Rightarrow> (if \<bar>r\<bar> > 8640000000000000 then NaN else Fin (of_int (toInteger r)))
      | _ \<Rightarrow> NaN)"

text \<open>
  \<^verbatim>\<open>d.setFullYear(y)\<close> on a valid date with time value \<open>t\<close>, returning the new time value:
  NaN when \<open>y\<close> is not finite, otherwise the calendar's value for the integer part of \<open>y\<close>,
  clipped.
\<close>

definition setFullYear :: "platform \<Rightarrow> int \<Rightarrow> jsnum \<Rightarrow> jsnum" where
  "setFullYear p t y =
     (case y of
        Fin r \<Rightarrow> timeClip (Fin (of_int (with_year p t (toInteger r))))
      | _ \<Rightarrow> NaN)"

text \<open>
  The date algorithms of the language standard, on time values and day numbers: the number
  of the first day of a year, the leap day of a year, the year of a day, the month of a day
  within its year and the first day of a month within its year (\<open>l\<close> is 1 in a leap year),
  and the hour, minute, second and millisecond of a time value. The standard defines the
  year of a day as the last year that starts on or before the day; \<open>yearFromDay\<close> computes it
  from an estimate that is at most one year off (lemma \<open>year_correct\<close>).
\<close>

definition msPerDay :: int where
  "msPerDay = 86400000"

definition dayFromYear :: "int \<Rightarrow> int" where
  "dayFromYear y =
     365 * (y - 1970) + (y - 1969) div 4 - (y - 1901) div 100 + (y - 1601) div 400"

definition leapDays :: "int \<Rightarrow> int" where
  "leapDays y = (if y mod 4 = 0 \<and> (y mod 100 \<noteq> 0 \<or> y mod 400 = 0) then 1 else 0)"

definition yearFromDay :: "int \<Rightarrow> int" where
  "yearFromDay d =
     (let y = 1970 + (400 * d) div 146097
      in if dayFromYear (y + 1) \<le> d then y + 1 else if d < dayFromYear y then y - 1 else y)"

definition monthFromDay :: "int \<Rightarrow> int \<Rightarrow> int" where
  "monthFromDay l n =
     (if n < 31 then 0 else if n < 59 + l then 1 else if n < 90 + l then 2
      else if n < 120 + l then 3 else if n < 151 + l then 4 else if n < 181 + l then 5
      else if n < 212 + l then 6 else if n < 243 + l then 7 else if n < 273 + l then 8
      else if n < 304 + l then 9 else if n < 334 + l then 10 else 11)"

definition monthStart :: "int \<Rightarrow> int \<Rightarrow> int" where
  "monthStart l m =
     (if m = 0 then 0 else if m = 1 then 31 else if m = 2 then 59 + l
      else if m = 3 then 90 + l else if m = 4 then 120 + l else if m = 5 then 151 + l
      else if m = 6 then 181 + l else if m = 7 then 212 + l else if m = 8 then 243 + l
      else if m = 9 then 273 + l else if m = 10 then 304 + l else 334 + l)"

definition hourFromTime :: "int \<Rightarrow> int" where
  "hourFromTime t = (t div 3600000) mod 24"

definition minFromTime :: "int \<Rightarrow> int" where
  "minFromTime t = (t div 60000) mod 60"

definition secFromTime :: "int \<Rightarrow> int" where
  "secFromTime t = (t div 1000) mod 60"

definition msFromTime :: "int \<Rightarrow> int" where
  "msFromTime t = t mod 1000"

text \<open>Decimal digits, and a number in \<open>w\<close> digits with leading zeros.\<close>

definition digit :: "int \<Rightarrow> char" where
  "digit n = ''0123456789'' ! nat n"

fun pad :: "nat \<Rightarrow> int \<Rightarrow> string" where
  "pad 0 n = []"
| "pad (Suc w) n = pad w (n div 10) @ [digit (n mod 10)]"

text \<open>
  \<^verbatim>\<open>toISOString()\<close> of a valid date with time value \<open>t\<close>, in UTC whatever the local time
  zone: \<^verbatim>\<open>YYYY-MM-DDTHH:mm:ss.sssZ\<close>, where a year outside 0 to 9999 is written with a sign
  and six digits.
\<close>

definition yearString :: "int \<Rightarrow> string" where
  "yearString y =
     (if 0 \<le> y \<and> y \<le> 9999 then pad 4 y
      else (if y < 0 then ''-'' else ''+'') @ pad 6 \<bar>y\<bar>)"

definition toISOString :: "int \<Rightarrow> string" where
  "toISOString t =
     (let d = t div msPerDay;
          y = yearFromDay d;
          n = d - dayFromYear y;
          m = monthFromDay (leapDays y) n;
          dt = n - monthStart (leapDays y) m + 1
      in yearString y @ ''-'' @ pad 2 (m + 1) @ ''-'' @ pad 2 dt @ ''T'' @
         pad 2 (hourFromTime t) @ '':'' @ pad 2 (minFromTime t) @ '':'' @
         pad 2 (secFromTime t) @ ''.'' @ pad 3 (msFromTime t) @ ''Z'')"

subsection \<open>Birthdate generator\<close>

text \<open>
  Lines 147 to 155 of \<^verbatim>\<open>generateUniqueBirthdate\<close>: from the clock reading \<open>now\<close>, the pair
  \<open>(minTime, maxTime)\<close>. \<^verbatim>\<open>min.getFullYear() - age.max\<close> reads the property, converts it
  to a Number and subtracts; either step can throw.
\<close>

definition ageWindow :: "platform \<Rightarrow> jsval \<Rightarrow> int \<Rightarrow> error + jsnum \<times> jsnum" where
  "ageWindow p age now =
     (case getProp age ''max'' of
        Inl e \<Rightarrow> Inl e
      | Inr amax \<Rightarrow>
     (case toNumber p amax of
        Inl e \<Rightarrow> Inl e
      | Inr nmax \<Rightarrow>
     (let minTime = setFullYear p now (js_sub (Fin (of_int (local_year p now))) nmax) in
     (case getProp age ''min'' of
        Inl e \<Rightarrow> Inl e
      | Inr amin \<Rightarrow>
     (case toNumber p amin of
        Inl e \<Rightarrow> Inl e
      | Inr nmin \<Rightarrow>
     (let maxTime = setFullYear p now (js_sub (Fin (of_int (local_year p now))) nmin)
      in Inr (minTime, maxTime)))))))"

text \<open>Line 160: the timestamp drawn from the \<open>k\<close>-th random number.\<close>

definition candidate :: "platform \<Rightarrow> jsnum \<Rightarrow> jsnum \<Rightarrow> nat \<Rightarrow> jsnum" where
  "candidate p minTime diff k = js_add minTime (js_floor (js_mul (Fin (random p k)) diff))"

text \<open>
  Lines 158 to 161, the \<^verbatim>\<open>do ... while (usedBirthdates.has(ts))\<close> loop: it draws until the
  timestamp is not in the set, and returns it with the position of the next random number.
  The loop has no bound; \<open>None\<close> is the run that never leaves it.
\<close>

partial_function (option) drawUnused ::
  "platform \<Rightarrow> jsnum \<Rightarrow> jsnum \<Rightarrow> jsnum set \<Rightarrow> nat \<Rightarrow> (jsnum \<times> nat) option" where
  "drawUnused p minTime diff used k =
     (let ts = candidate p minTime diff k
      in if ts \<in> used then drawUnused p minTime diff used (Suc k) else Some (ts, Suc k))"

declare drawUnused.simps [code]

text \<open>
  \<^verbatim>\<open>generateUniqueBirthdate(age, usedBirthdates)\<close>. The set is returned updated.
  \<^verbatim>\<open>new Date(ts)\<close> clips the timestamp, and \<^verbatim>\<open>toISOString()\<close> throws a RangeError on an
  invalid date.
\<close>

definition generateUniqueBirthdate ::
  "platform \<Rightarrow> jsval \<Rightarrow> jsnum set \<Rightarrow> world \<Rightarrow> (error + jsval \<times> jsnum set \<times> world) option" where
  "generateUniqueBirthdate p age used w =
     (let now = clock p (cpos w); w1 = w\<lparr>cpos := Suc (cpos w)\<rparr> in
      case ageWindow p age now of
        Inl e \<Rightarrow> Some (Inl e)
      | Inr (minTime, maxTime) \<Rightarrow>
         (let diff = js_sub maxTime minTime in
          case drawUnused p minTime diff used (rpos w1) of
            None \<Rightarrow> None
          | Some (ts, k) \<Rightarrow>
             (case timeClip ts of
                Fin tv \<Rightarrow>
                  Some (Inr (Str (toISOString \<lfloor>tv\<rfloor>), insert ts used, w1\<lparr>rpos := k\<rparr>))
              | _ \<Rightarrow> Some (Inl RangeError))))"

subsection \<open>Orchestration\<close>

text \<open>The body of the loop of \<^verbatim>\<open>main\<close> (lines 17 to 29) for the index \<open>i\<close>.\<close>

definition employeeAt ::
  "platform \<Rightarrow> jsval \<Rightarrow> nat \<Rightarrow> jsnum set \<Rightarrow> world \<Rightarrow> (error + employee \<times> jsnum set \<times> world) option" where
  "employeeAt p age i used w =
     (let (g, w1) = getGender p i w;
          (wl, w2) = getWorkload p i w1;
          (n, w3) = getName p i g w2;
          (s, w4) = getSurname p i g w3
      in case generateUniqueBirthdate p age used w4 of
           None \<Rightarrow> None
         | Some (Inl e) \<Rightarrow> Some (Inl e)
         | Some (Inr (b, used', w5)) \<Rightarrow>
             Some (Inr (\<lparr>gender = g, birthdate = b, name = n, surname = s, workload = wl\<rparr>,
                        used', w5)))"

text \<open>
  The loop \<^verbatim>\<open>for (let i = 0; i < count; i++)\<close> from the index \<open>i\<close> on. With
  \<^verbatim>\<open>count = Infinity\<close> it has no end.
\<close>

partial_function (option) generateFrom ::
  "platform \<Rightarrow> jsnum \<Rightarrow> jsval \<Rightarrow> nat \<Rightarrow> jsnum set \<Rightarrow> world \<Rightarrow> employee list
     \<Rightarrow> (error + employee list) option" where
  "generateFrom p count age i used w dtoOut =
     (if js_lt (Fin (real i)) count
      then (case employeeAt p age i used w of
              None \<Rightarrow> None
            | Some (Inl e) \<Rightarrow> Some (Inl e)
            | Some (Inr (emp, used', w')) \<Rightarrow>
                generateFrom p count age (Suc i) used' w' (dtoOut @ [emp]))
      else Some (Inr dtoOut))"

declare generateFrom.simps [code]

text \<open>
  \<^verbatim>\<open>main(dtoIn)\<close>. The destructuring of line 10 comes before the guard of line 11 and
  throws a TypeError on \<^verbatim>\<open>null\<close> and \<^verbatim>\<open>undefined\<close>. Past the guard \<open>count\<close> is a Number.
  The result is \<open>None\<close> when the run does not end, \<open>Some (Inl e)\<close> when it throws \<open>e\<close> and
  \<open>Some (Inr dtoOut)\<close> when it returns the list \<open>dtoOut\<close>.
\<close>

definition main :: "platform \<Rightarrow> jsval \<Rightarrow> (error + employee list) option" where
  "main p dtoIn =
     (case getProp dtoIn ''count'' of
        Inl e \<Rightarrow> Some (Inl e)
      | Inr count \<Rightarrow>
     (case getProp dtoIn ''age'' of
        Inl e \<Rightarrow> Some (Inl e)
      | Inr age \<Rightarrow>
         if \<not> truthy dtoIn \<or> typeof count \<noteq> ''number'' \<or> \<not> truthy age then Some (Inr [])
         else (case count of
                 Num c \<Rightarrow> generateFrom p c age 0 {} \<lparr>rpos = 0, cpos = 0\<rparr> []
               | _ \<Rightarrow> Some (Inr []))))"

section \<open>A platform for concrete runs\<close>

text \<open>
  A platform whose local time zone is UTC: \<^verbatim>\<open>getFullYear()\<close> is the year of the day of the
  time value.
\<close>

definition utcYear :: "int \<Rightarrow> int" where
  "utcYear t = yearFromDay (t div msPerDay)"

text \<open>
  \<^verbatim>\<open>setFullYear(y)\<close> before clipping: the same month, day of the month and time of day in
  the year \<open>y\<close>; the 29th of February becomes the 1st of March in a year that has none.
\<close>

definition utcWithYear :: "int \<Rightarrow> int \<Rightarrow> int" where
  "utcWithYear t y =
     (let d = t div msPerDay;
          y0 = yearFromDay d;
          n = d - dayFromYear y0;
          m = monthFromDay (leapDays y0) n;
          dt = n - monthStart (leapDays y0) m
      in (dayFromYear y + monthStart (leapDays y) m + dt) * msPerDay + t mod msPerDay)"

text \<open>
  The platform with the random numbers \<open>rnd\<close> and the clock readings \<open>clk\<close>. The runs below
  put no string where a Number is expected, and the conversion of strings is left trivial.
\<close>

definition utc :: "(nat \<Rightarrow> real) \<Rightarrow> (nat \<Rightarrow> int) \<Rightarrow> platform" where
  "utc rnd clk =
     \<lparr>random = rnd, clock = clk, local_year = utcYear, with_year = utcWithYear,
      string_to_number = (\<lambda>s. NaN)\<rparr>"

text \<open>Noon of 2 November 2026, UTC.\<close>

definition noon :: int where
  "noon = 1793620800000"

section \<open>Conditions on the platform\<close>



section \<open>Concrete inputs\<close>

text \<open>
  A random source that cycles through the eighths \<open>0, 1/8, \<dots>, 7/8\<close>, and the platform with
  this source and a clock that stands still at noon of 2 November 2026.
\<close>

definition cyclicRandom :: "nat \<Rightarrow> real" where
  "cyclicRandom k = real (k mod 8) / 8"

definition atNoon :: platform where
  "atNoon = utc cyclicRandom (\<lambda>k. noon)"

text \<open>Age ranges and requests \<^verbatim>\<open>{count: c, age: age}\<close>.\<close>

definition age20to30 :: jsval where
  "age20to30 = Obj [(''min'', Num (Fin 20)), (''max'', Num (Fin 30))]"


definition request :: "jsnum \<Rightarrow> jsval \<Rightarrow> jsval" where
  "request c age = Obj [(''count'', Num c), (''age'', age)]"

text \<open>The first employees of every run, with the birthdate \<open>b\<close>.\<close>

definition employeeJan :: "string \<Rightarrow> employee" where
  "employeeJan b =
     \<lparr>gender = Str ''male'', birthdate = Str b, name = maleNames ! 0, surname = maleSurnames ! 0,
      workload = Num (Fin 10)\<rparr>"

definition employeeMarie :: "string \<Rightarrow> employee" where
  "employeeMarie b =
     \<lparr>gender = Str ''female'', birthdate = Str b, name = femaleNames ! 1,
      surname = femaleSurnames ! 1, workload = Num (Fin 20)\<rparr>"

definition employeeJakub :: "string \<Rightarrow> employee" where
  "employeeJakub b =
     \<lparr>gender = Str ''male'', birthdate = Str b, name = maleNames ! 2, surname = maleSurnames ! 2,
      workload = Num (Fin 30)\<rparr>"

text \<open>
  The result of \<^verbatim>\<open>main({count: 5, age: {min: 20, max: 30}})\<close> on the platform \<open>atNoon\<close>.
  The fifth birthdate is found at the third draw: the first two repeat the birthdates of the
  first two employees.
\<close>

definition fiveEmployees :: "employee list" where
  "fiveEmployees =
     [employeeJan ''1996-11-02T12:00:00.000Z'', employeeMarie ''1998-02-02T00:00:00.000Z'',
      employeeJakub ''2000-08-03T00:00:00.000Z'',
      \<lparr>gender = Str ''female'', birthdate = Str ''2003-02-02T00:00:00.000Z'',
        name = femaleNames ! 3, surname = femaleSurnames ! 3, workload = Num (Fin 40)\<rparr>,
      \<lparr>gender = Str ''female'', birthdate = Str ''1999-05-04T12:00:00.000Z'',
        name = femaleNames ! 4, surname = femaleSurnames ! 4, workload = Num (Fin 40)\<rparr>]"

section \<open>Facts about the model\<close>

subsection \<open>Unfolding the loops\<close>

lemma generateFrom_done:
  "\<not> js_lt (Fin (real i)) count \<Longrightarrow> generateFrom p count age i used w dtoOut = Some (Inr dtoOut)"
  by (subst generateFrom.simps) simp





text \<open>
  An invariant of the loop of \<^verbatim>\<open>main\<close> that holds when the loop starts and is kept by
  every iteration holds when the loop ends.
\<close>

lemma generateFrom_invariant:
  assumes run: "generateFrom p c age i used w out = Some (Inr rs)"
    and init: "I i used w out"
    and step: "\<And>i used w out emp used' w'. I i used w out \<Longrightarrow> js_lt (Fin (real i)) c \<Longrightarrow>
                employeeAt p age i used w = Some (Inr (emp, used', w')) \<Longrightarrow>
                I (Suc i) used' w' (out @ [emp])"
  shows "\<exists>n used' w'. I n used' w' rs \<and> \<not> js_lt (Fin (real n)) c"
proof -
  have "generateFrom p c age i used w out = Some y \<Longrightarrow> y = Inr rs \<Longrightarrow> I i used w out \<Longrightarrow>
        (\<forall>i used w out emp used' w'. I i used w out \<longrightarrow> js_lt (Fin (real i)) c \<longrightarrow>
             employeeAt p age i used w = Some (Inr (emp, used', w')) \<longrightarrow>
             I (Suc i) used' w' (out @ [emp])) \<Longrightarrow>
        \<exists>n used' w'. I n used' w' rs \<and> \<not> js_lt (Fin (real n)) c" for y
  proof (induction p c age i used w out y rule: generateFrom.raw_induct[rotated 1, consumes 1, case_names step])
    case (step gf p c age i used w out y)
    show ?case
    proof (cases "js_lt (Fin (real i)) c")
      case False
      with step(2,3,4) show ?thesis by auto
    next
      case True
      with step(2,3) obtain emp used' w' where
        e: "employeeAt p age i used w = Some (Inr (emp, used', w'))"
        and g: "gf p c age (Suc i) used' w' (out @ [emp]) = Some (Inr rs)"
        by (auto split: option.splits sum.splits prod.splits)
      have "I (Suc i) used' w' (out @ [emp])" using step(4,5) True e by blast
      with step(1)[OF g refl _ step(5)] show ?thesis by blast
    qed
  qed
  with run init step show ?thesis by blast
qed

text \<open>What the retry loop returns is a drawn timestamp that is not in the set.\<close>

lemma drawUnused_Some:
  assumes "drawUnused p mn d used k = Some (ts, k')"
  shows "ts \<notin> used \<and> (\<exists>j\<ge>k. ts = candidate p mn d j \<and> k' = Suc j)"
proof -
  have "drawUnused p mn d used k = Some y \<Longrightarrow>
        fst y \<notin> used \<and> (\<exists>j\<ge>k. fst y = candidate p mn d j \<and> snd y = Suc j)" for y
  proof (induction p mn d used k y rule: drawUnused.raw_induct[rotated 1, consumes 1, case_names step])
    case (step du p mn d used k y)
    show ?case
    proof (cases "candidate p mn d k \<in> used")
      case True
      with step(2) have "du p mn d used (Suc k) = Some y" by (simp add: Let_def)
      from step(1)[OF this] obtain j where "fst y \<notin> used" "Suc k \<le> j"
        "fst y = candidate p mn d j" "snd y = Suc j" by blast
      then have "fst y \<notin> used" "k \<le> j" "fst y = candidate p mn d j" "snd y = Suc j"
        by simp_all
      then show ?thesis by blast
    next
      case False
      with step(2) have "y = (candidate p mn d k, Suc k)" by (simp add: Let_def)
      with False show ?thesis by auto
    qed
  qed
  from this[OF assms] show ?thesis by simp
qed



subsection \<open>The calendar\<close>

text \<open>
  The year of a day is the year whose first day is the last one not after it; hence the day
  within the year, the month and the day of the month are in range.
\<close>

lemma div_bounds:
  fixes x :: int
  shows "4 * (x div 4) \<le> x" "x < 4 * (x div 4) + 4"
    "100 * (x div 100) \<le> x" "x < 100 * (x div 100) + 100"
    "400 * (x div 400) \<le> x" "x < 400 * (x div 400) + 400"
    "146097 * (x div 146097) \<le> x" "x < 146097 * (x div 146097) + 146097"
  by simp_all

lemma dayFromYear_bounds:
  "400 * dayFromYear y \<le> 146097 * (y - 1970) + 589"
  "146097 * (y - 1970) - 506 \<le> 400 * dayFromYear y"
proof -
  define a b c where "a = (y - 1969) div 4" and "b = (y - 1901) div 100"
    and "c = (y - 1601) div 400"
  have a: "4 * a \<le> y - 1969" "y - 1969 < 4 * a + 4"
    and b: "100 * b \<le> y - 1901" "y - 1901 < 100 * b + 100"
    and c: "400 * c \<le> y - 1601" "y - 1601 < 400 * c + 400"
    unfolding a_def b_def c_def by simp_all
  have d: "dayFromYear y = 365 * (y - 1970) + a - b + c"
    by (simp add: dayFromYear_def a_def b_def c_def)
  show "400 * dayFromYear y \<le> 146097 * (y - 1970) + 589"
    unfolding d using a b c by (simp add: algebra_simps)
  show "146097 * (y - 1970) - 506 \<le> 400 * dayFromYear y"
    unfolding d using a b c by (simp add: algebra_simps)
qed

lemma year_correct:
  "dayFromYear (yearFromDay d) \<le> d \<and> d < dayFromYear (yearFromDay d + 1)"
proof -
  define q where "q = (400 * d) div 146097"
  have q: "146097 * q \<le> 400 * d" "400 * d < 146097 * q + 146097"
    using div_bounds(7,8)[of "400 * d"] by (simp_all add: q_def)
  have lo: "dayFromYear (1970 + q - 1) \<le> d"
    using dayFromYear_bounds(1)[of "1970 + q - 1"] q by (simp add: algebra_simps)
  have hi: "d < dayFromYear (1970 + q + 2)"
    using dayFromYear_bounds(2)[of "1970 + q + 2"] q by (simp add: algebra_simps)
  show ?thesis
    using lo hi by (auto simp add: yearFromDay_def Let_def q_def[symmetric] add.commute)
qed

lemma div_succ:
  fixes x m :: int
  assumes "0 < m"
  shows "(x + 1) div m = x div m + (if (x + 1) mod m = 0 then 1 else 0)"
proof -
  have r: "0 \<le> x mod m" "x mod m < m" using assms by simp_all
  have x: "x + 1 = (x mod m + 1) + m * (x div m)" by simp
  have "m \<noteq> 0" using assms by simp
  from div_mult_self2[OF this, of "x mod m + 1" "x div m"]
  have d: "(x + 1) div m = x div m + (x mod m + 1) div m"
    unfolding x[symmetric] .
  from mod_mult_self2[of "x mod m + 1" m "x div m"]
  have m: "(x + 1) mod m = (x mod m + 1) mod m"
    unfolding x[symmetric] .
  show ?thesis
  proof (cases "x mod m + 1 = m")
    case True
    with assms d m show ?thesis by simp
  next
    case False
    with r have "x mod m + 1 < m" by simp
    with r have "(x mod m + 1) div m = 0" "(x mod m + 1) mod m = x mod m + 1" by simp_all
    with d m r show ?thesis by simp
  qed
qed

lemma mod_shift:
  fixes y :: int
  shows "(y - 1969 + 1) mod 4 = 0 \<longleftrightarrow> y mod 4 = 0"
    and "(y - 1901 + 1) mod 100 = 0 \<longleftrightarrow> y mod 100 = 0"
    and "(y - 1601 + 1) mod 400 = 0 \<longleftrightarrow> y mod 400 = 0"
proof -
  have "(y - 1969 + 1) = y + 4 * (- 492)" "(y - 1901 + 1) = y + 100 * (- 19)"
    "(y - 1601 + 1) = y + 400 * (- 4)" by simp_all
  then show "(y - 1969 + 1) mod 4 = 0 \<longleftrightarrow> y mod 4 = 0"
    and "(y - 1901 + 1) mod 100 = 0 \<longleftrightarrow> y mod 100 = 0"
    and "(y - 1601 + 1) mod 400 = 0 \<longleftrightarrow> y mod 400 = 0"
    by (simp_all only: mod_mult_self2)
qed

lemma mod_400_100_4:
  fixes y :: int
  shows "y mod 400 = 0 \<Longrightarrow> y mod 100 = 0" and "y mod 100 = 0 \<Longrightarrow> y mod 4 = 0"
proof -
  have a: "(100 :: int) dvd 400" and b: "(4 :: int) dvd 100" by simp_all
  show "y mod 100 = 0" if "y mod 400 = 0"
  proof -
    from that have "400 dvd y" by (simp add: mod_eq_0_iff_dvd)
    with a have "100 dvd y" by (rule dvd_trans)
    then show ?thesis by (simp add: mod_eq_0_iff_dvd)
  qed
  show "y mod 4 = 0" if "y mod 100 = 0"
  proof -
    from that have "100 dvd y" by (simp add: mod_eq_0_iff_dvd)
    with b have "4 dvd y" by (rule dvd_trans)
    then show ?thesis by (simp add: mod_eq_0_iff_dvd)
  qed
qed

lemma dayFromYear_step: "dayFromYear (y + 1) = dayFromYear y + 365 + leapDays y"
proof -
  have a: "(y - 1968) div 4 = (y - 1969) div 4 + (if y mod 4 = 0 then 1 else 0)"
    using div_succ[of 4 "y - 1969"] mod_shift(1)[of y] by simp
  have b: "(y - 1900) div 100 = (y - 1901) div 100 + (if y mod 100 = 0 then 1 else 0)"
    using div_succ[of 100 "y - 1901"] mod_shift(2)[of y] by simp
  have c: "(y - 1600) div 400 = (y - 1601) div 400 + (if y mod 400 = 0 then 1 else 0)"
    using div_succ[of 400 "y - 1601"] mod_shift(3)[of y] by simp
  have "dayFromYear (y + 1) =
      365 * (y - 1970) + 365 + (y - 1968) div 4 - (y - 1900) div 100 + (y - 1600) div 400"
    by (simp add: dayFromYear_def)
  also have "\<dots> = dayFromYear y + 365 + (if y mod 4 = 0 then 1 else 0)
      - (if y mod 100 = 0 then 1 else 0) + (if y mod 400 = 0 then 1 else 0)"
    unfolding a b c dayFromYear_def by simp
  also have "\<dots> = dayFromYear y + 365 + leapDays y"
  proof -
    consider (a) "y mod 400 = 0" | (b) "y mod 400 \<noteq> 0" "y mod 100 = 0"
      | (c) "y mod 100 \<noteq> 0" "y mod 4 = 0" | (d) "y mod 4 \<noteq> 0" by blast
    then show ?thesis
    proof cases
      case a
      with mod_400_100_4[of y] have "y mod 100 = 0" "y mod 4 = 0" by simp_all
      with a show ?thesis by (simp add: leapDays_def)
    next
      case b
      with mod_400_100_4[of y] have "y mod 4 = 0" by simp
      with b show ?thesis by (simp add: leapDays_def)
    next
      case c
      have "y mod 400 \<noteq> 0"
      proof
        assume "y mod 400 = 0"
        then have "y mod 100 = 0" by (rule mod_400_100_4(1))
        with c show False by simp
      qed
      with c show ?thesis by (simp add: leapDays_def)
    next
      case d
      have e: "y mod 100 \<noteq> 0"
      proof
        assume "y mod 100 = 0"
        then have "y mod 4 = 0" by (rule mod_400_100_4(2))
        with d show False by simp
      qed
      have "y mod 400 \<noteq> 0"
      proof
        assume "y mod 400 = 0"
        then have "y mod 100 = 0" by (rule mod_400_100_4(1))
        with e show False by simp
      qed
      with d e show ?thesis by (simp add: leapDays_def)
    qed
  qed
  finally show ?thesis .
qed

lemma year_day_range:
  "0 \<le> d - dayFromYear (yearFromDay d)"
  "d - dayFromYear (yearFromDay d) < 365 + leapDays (yearFromDay d)"
  using year_correct[of d] dayFromYear_step[of "yearFromDay d"] by simp_all

lemma leapDays_range: "0 \<le> leapDays y" "leapDays y \<le> 1"
  by (simp_all add: leapDays_def)

lemma month_range:
  assumes "0 \<le> n" and "n < 365 + l" and "0 \<le> l" and "l \<le> 1"
  shows "0 \<le> monthFromDay l n \<and> monthFromDay l n \<le> 11"
  by (simp add: monthFromDay_def)

lemma date_range:
  assumes "0 \<le> n" and "n < 365 + l" and "0 \<le> l" and "l \<le> 1"
  shows "1 \<le> n - monthStart l (monthFromDay l n) + 1 \<and>
         n - monthStart l (monthFromDay l n) + 1 \<le> 31"
  using assms unfolding monthFromDay_def
  by (simp add: monthStart_def split: if_splits)

lemma day_bound:
  assumes "\<bar>t\<bar> \<le> 8640000000000000"
  shows "\<bar>t div msPerDay\<bar> \<le> 100000000"
proof -
  have "86400000 * (t div 86400000) \<le> t" "t < 86400000 * (t div 86400000) + 86400000"
    by simp_all
  with assms show ?thesis unfolding msPerDay_def by linarith
qed

lemma year_bound:
  assumes "\<bar>d\<bar> \<le> 100000000"
  shows "\<bar>yearFromDay d\<bar> < 1000000"
proof -
  define q where "q = (400 * d) div 146097"
  have q: "146097 * q \<le> 400 * d" "400 * d < 146097 * q + 146097"
    using div_bounds(7,8)[of "400 * d"] by (simp_all add: q_def)
  with assms have "- 300000 < q" "q < 300000" by simp_all
  then have "\<bar>1969 + q\<bar> < 1000000" "\<bar>1970 + q\<bar> < 1000000" "\<bar>1971 + q\<bar> < 1000000"
    by (simp_all add: abs_less_iff)
  then show ?thesis
    by (simp add: yearFromDay_def Let_def q_def[symmetric] add.commute)
qed

lemma time_fields:
  "t = msPerDay * (t div msPerDay) + 3600000 * hourFromTime t + 60000 * minFromTime t
         + 1000 * secFromTime t + msFromTime t"
proof -
  have a: "t div 1000 div 60 = t div 60000" "t div 60000 div 60 = t div 3600000"
    "t div 3600000 div 24 = t div 86400000"
    by (simp_all add: zdiv_zmult2_eq[symmetric])
  have e1: "t = 1000 * (t div 1000) + msFromTime t"
    by (simp add: msFromTime_def)
  have "t div 1000 = 60 * (t div 1000 div 60) + t div 1000 mod 60" by simp
  then have e2: "t div 1000 = 60 * (t div 60000) + secFromTime t"
    unfolding a secFromTime_def .
  have "t div 60000 = 60 * (t div 60000 div 60) + t div 60000 mod 60" by simp
  then have e3: "t div 60000 = 60 * (t div 3600000) + minFromTime t"
    unfolding a minFromTime_def .
  have "t div 3600000 = 24 * (t div 3600000 div 24) + t div 3600000 mod 24" by simp
  then have e4: "t div 3600000 = 24 * (t div 86400000) + hourFromTime t"
    unfolding a hourFromTime_def .
  show ?thesis
    unfolding msPerDay_def using e1 e2 e3 e4 by linarith
qed

lemma field_ranges:
  "0 \<le> hourFromTime t" "hourFromTime t < 100" "0 \<le> minFromTime t" "minFromTime t < 100"
  "0 \<le> secFromTime t" "secFromTime t < 100" "0 \<le> msFromTime t" "msFromTime t < 1000"
proof -
  have "hourFromTime t < 24" "minFromTime t < 60" "secFromTime t < 60"
    by (simp_all add: hourFromTime_def minFromTime_def secFromTime_def)
  then show "hourFromTime t < 100" "minFromTime t < 100" "secFromTime t < 100" by simp_all
qed (simp_all add: hourFromTime_def minFromTime_def secFromTime_def msFromTime_def)

text \<open>
  Numbers within range have different digits, and \<^verbatim>\<open>toISOString\<close> is injective on the time
  values of valid dates.
\<close>

lemma digit_inj:
  assumes "0 \<le> a" "a < 10" "0 \<le> b" "b < 10" "digit a = digit b"
  shows "a = b"
proof -
  have "distinct ''0123456789''" by simp
  moreover have "nat a < length ''0123456789''" "nat b < length ''0123456789''"
    using assms by simp_all
  ultimately have "nat a = nat b"
    using assms(5) unfolding digit_def by (simp only: nth_eq_iff_index_eq)
  with assms show ?thesis by simp
qed

lemma length_pad: "length (pad w n) = w"
  by (induction w arbitrary: n) simp_all

lemma pad_inj:
  "0 \<le> a \<Longrightarrow> a < 10 ^ w \<Longrightarrow> 0 \<le> b \<Longrightarrow> b < 10 ^ w \<Longrightarrow> pad w a = pad w b \<Longrightarrow> a = b"
proof (induction w arbitrary: a b)
  case 0
  then show ?case by simp
next
  case (Suc w)
  from Suc.prems(5) have p: "pad w (a div 10) = pad w (b div 10)"
    and d: "digit (a mod 10) = digit (b mod 10)"
    by (simp_all add: length_pad)
  have "10 * (a div 10) \<le> a" "10 * (b div 10) \<le> b" by simp_all
  with Suc.prems(2,4) have "a div 10 < 10 ^ w" "b div 10 < 10 ^ w" by simp_all
  with Suc.IH[of "a div 10" "b div 10"] Suc.prems(1,3) p
  have "a div 10 = b div 10" by (simp add: pos_imp_zdiv_nonneg_iff)
  moreover have "a mod 10 = b mod 10"
    using digit_inj[of "a mod 10" "b mod 10"] d by simp
  ultimately show ?case
    by (metis mult_div_mod_eq)
qed

lemma length_yearString: "length (yearString y) = (if 0 \<le> y \<and> y \<le> 9999 then 4 else 7)"
  by (simp add: yearString_def length_pad)

lemma yearString_inj:
  assumes "\<bar>y\<bar> < 1000000" and "\<bar>z\<bar> < 1000000" and "yearString y = yearString z"
  shows "y = z"
proof -
  from assms(3) have len: "length (yearString y) = length (yearString z)" by simp
  show ?thesis
  proof (cases "0 \<le> y \<and> y \<le> 9999")
    case True
    with len have z: "0 \<le> z \<and> z \<le> 9999" by (simp add: length_yearString split: if_splits)
    with True assms(3) have "pad 4 y = pad 4 z" by (simp add: yearString_def)
    with True z show ?thesis by (intro pad_inj[of y 4 z]) simp_all
  next
    case False
    with len have z: "\<not> (0 \<le> z \<and> z \<le> 9999)"
      by (simp add: length_yearString split: if_splits)
    from False have ys: "yearString y = (if y < 0 then ''-'' else ''+'') @ pad 6 \<bar>y\<bar>"
      unfolding yearString_def by (rule if_not_P)
    from z have zs: "yearString z = (if z < 0 then ''-'' else ''+'') @ pad 6 \<bar>z\<bar>"
      unfolding yearString_def by (rule if_not_P)
    from assms(3) have
      e: "(if y < 0 then ''-'' else ''+'') @ pad 6 \<bar>y\<bar> = (if z < 0 then ''-'' else ''+'') @ pad 6 \<bar>z\<bar>"
      unfolding ys zs .
    then have s: "y < 0 \<longleftrightarrow> z < 0" by (cases "y < 0"; cases "z < 0") simp_all
    from e s have "pad 6 \<bar>y\<bar> = pad 6 \<bar>z\<bar>" by (cases "y < 0") simp_all
    with assms(1,2) have "\<bar>y\<bar> = \<bar>z\<bar>" by (intro pad_inj[of "\<bar>y\<bar>" 6 "\<bar>z\<bar>"]) simp_all
    with s show ?thesis by linarith
  qed
qed

lemma toISOString_inj:
  assumes t: "\<bar>t\<bar> \<le> 8640000000000000" and u: "\<bar>u\<bar> \<le> 8640000000000000"
    and eq: "toISOString t = toISOString u"
  shows "t = u"
proof -
  define d y n l m dt where "d = t div msPerDay" and "y = yearFromDay d"
    and "n = d - dayFromYear y" and "l = leapDays y" and "m = monthFromDay l n"
    and "dt = n - monthStart l m + 1"
  define d' y' n' l' m' dt' where "d' = u div msPerDay" and "y' = yearFromDay d'"
    and "n' = d' - dayFromYear y'" and "l' = leapDays y'" and "m' = monthFromDay l' n'"
    and "dt' = n' - monthStart l' m' + 1"
  let ?tail = "\<lambda>m dt t. ''-'' @ pad 2 (m + 1) @ ''-'' @ pad 2 dt @ ''T'' @
         pad 2 (hourFromTime t) @ '':'' @ pad 2 (minFromTime t) @ '':'' @
         pad 2 (secFromTime t) @ ''.'' @ pad 3 (msFromTime t) @ ''Z''"
  have st: "toISOString t = yearString y @ ?tail m dt t"
    by (simp add: toISOString_def Let_def d_def y_def n_def l_def m_def dt_def)
  have su: "toISOString u = yearString y' @ ?tail m' dt' u"
    by (simp add: toISOString_def Let_def d'_def y'_def n'_def l'_def m'_def dt'_def)
  have len: "length (?tail m dt t) = length (?tail m' dt' u)" by (simp add: length_pad)
  from eq have e: "yearString y @ ?tail m dt t = yearString y' @ ?tail m' dt' u"
    unfolding st su .
  note c = iffD1[OF append_eq_append_conv[OF disjI2[OF len]] e]
  have ys: "yearString y = yearString y'" using c by (rule conjunct1)
  have tl: "?tail m dt t = ?tail m' dt' u" using c by (rule conjunct2)
  from tl have p: "pad 2 (m + 1) = pad 2 (m' + 1)" "pad 2 dt = pad 2 dt'"
    "pad 2 (hourFromTime t) = pad 2 (hourFromTime u)"
    "pad 2 (minFromTime t) = pad 2 (minFromTime u)"
    "pad 2 (secFromTime t) = pad 2 (secFromTime u)"
    "pad 3 (msFromTime t) = pad 3 (msFromTime u)"
    by (simp_all add: length_pad)
  have yb: "\<bar>y\<bar> < 1000000" "\<bar>y'\<bar> < 1000000"
    unfolding y_def y'_def d_def d'_def using year_bound day_bound t u by simp_all
  from yearString_inj[OF yb ys] have y: "y' = y" by simp
  then have l: "l' = l" by (simp add: l_def l'_def)
  have nr: "0 \<le> n" "n < 365 + l" "0 \<le> n'" "n' < 365 + l"
    unfolding n_def n'_def l_def y_def y'_def
    using year_day_range[of d] year_day_range[of d'] y unfolding y_def y'_def by simp_all
  have lr: "0 \<le> l" "l \<le> 1" unfolding l_def by (rule leapDays_range)+
  have mr: "0 \<le> m + 1" "m + 1 < 10 ^ 2" "0 \<le> m' + 1" "m' + 1 < 10 ^ 2"
    using month_range[OF nr(1,2) lr] month_range[OF nr(3,4) lr]
    unfolding m_def m'_def l by simp_all
  have dr: "0 \<le> dt" "dt < 10 ^ 2" "0 \<le> dt'" "dt' < 10 ^ 2"
    using date_range[OF nr(1,2) lr] date_range[OF nr(3,4) lr]
    unfolding dt_def dt'_def m_def m'_def l by simp_all
  from pad_inj[OF mr p(1)] have m: "m' = m" by simp
  from pad_inj[OF dr p(2)] have "dt' = dt" by simp
  then have "n' = n" unfolding dt_def dt'_def m l by simp
  then have d: "d' = d" unfolding n_def n'_def y by simp
  have h: "hourFromTime t = hourFromTime u"
    by (rule pad_inj[OF _ _ _ _ p(3)]) (simp_all add: field_ranges)
  have mi: "minFromTime t = minFromTime u"
    by (rule pad_inj[OF _ _ _ _ p(4)]) (simp_all add: field_ranges)
  have s: "secFromTime t = secFromTime u"
    by (rule pad_inj[OF _ _ _ _ p(5)]) (simp_all add: field_ranges)
  have ms: "msFromTime t = msFromTime u"
    by (rule pad_inj[OF _ _ _ _ p(6)]) (simp_all add: field_ranges)
  from time_fields[of t] time_fields[of u] d h mi s ms show ?thesis
    unfolding d_def d'_def by simp
qed

subsection \<open>Numbers and dates\<close>

lemma js_add_Fin: "js_add a b = Fin x \<longleftrightarrow> (\<exists>a' b'. a = Fin a' \<and> b = Fin b' \<and> x = a' + b')"
  by (cases a; cases b) auto

lemma js_sub_Fin: "js_sub a b = Fin x \<longleftrightarrow> (\<exists>a' b'. a = Fin a' \<and> b = Fin b' \<and> x = a' - b')"
  by (cases a; cases b) (auto simp add: js_sub_def)

lemma js_mul_Fin: "js_mul (Fin r) d = Fin x \<longleftrightarrow> (\<exists>d'. d = Fin d' \<and> x = r * d')"
  by (cases d) auto

lemma js_floor_Fin: "js_floor v = Fin x \<longleftrightarrow> (\<exists>v'. v = Fin v' \<and> x = of_int \<lfloor>v'\<rfloor>)"
  by (cases v) auto

lemma candidate_Fin:
  "candidate p mn d j = Fin x \<longleftrightarrow>
   (\<exists>m dd. mn = Fin m \<and> d = Fin dd \<and> x = m + of_int \<lfloor>random p j * dd\<rfloor>)"
  by (auto simp add: candidate_def js_add_Fin js_floor_Fin js_mul_Fin)

lemma toInteger_of_int: "toInteger (of_int z) = z"
  by (simp add: toInteger_def)

lemma timeClip_of_int:
  "timeClip (Fin (of_int z)) = (if \<bar>z\<bar> > 8640000000000000 then NaN else Fin (of_int z))"
proof -
  have "\<bar>real_of_int z\<bar> > 8640000000000000 \<longleftrightarrow> \<bar>z\<bar> > 8640000000000000"
    by linarith
  then show ?thesis by (simp add: timeClip_def toInteger_of_int)
qed

lemma timeClip_Fin:
  "timeClip v = Fin x \<Longrightarrow> \<exists>r. v = Fin r \<and> x = of_int (toInteger r) \<and> \<bar>r\<bar> \<le> 8640000000000000"
  by (cases v) (auto simp add: timeClip_def split: if_splits)

lemma setFullYear_cases:
  "setFullYear p t y = NaN \<or>
   (\<exists>m. setFullYear p t y = Fin (of_int m) \<and> \<bar>m\<bar> \<le> 8640000000000000)"
  by (cases y) (auto simp add: setFullYear_def timeClip_of_int)

lemma ageWindow_Inr:
  assumes "ageWindow p age now = Inr (mn, mx)"
  shows "mn = NaN \<or> (\<exists>m. mn = Fin (of_int m) \<and> \<bar>m\<bar> \<le> 8640000000000000)"
    and "mx = NaN \<or> (\<exists>m. mx = Fin (of_int m) \<and> \<bar>m\<bar> \<le> 8640000000000000)"
  using assms setFullYear_cases
  by (auto simp add: ageWindow_def Let_def split: sum.splits)




subsection \<open>One iteration\<close>

lemma cpos_getGender: "cpos (snd (getGender p i w)) = cpos w"
  by (simp add: getGender_def randomInt_def split: prod.splits)

lemma cpos_getWorkload: "cpos (snd (getWorkload p i w)) = cpos w"
  by (simp add: getWorkload_def randomInt_def split: prod.splits)

lemma cpos_getName: "cpos (snd (getName p i g w)) = cpos w"
  by (simp add: getName_def randomInt_def Let_def split: prod.splits)

lemma cpos_getSurname: "cpos (snd (getSurname p i g w)) = cpos w"
  by (simp add: getSurname_def randomInt_def Let_def split: prod.splits)

lemma length_lists:
  "length genders = 2" "length workloads = 4" "length maleNames = 16"
  "length femaleNames = 16" "length maleSurnames = 16" "length femaleSurnames = 16"
  by (simp_all add: genders_def workloads_def maleNames_def femaleNames_def
      maleSurnames_def femaleSurnames_def)



lemma getName_first:
  "i < 16 \<Longrightarrow> fst (getName p i g w) = (if g = Str ''male'' then maleNames else femaleNames) ! i"
  by (simp add: getName_def length_lists)

lemma getSurname_first:
  "i < 16 \<Longrightarrow>
   fst (getSurname p i g w) = (if g = Str ''male'' then maleSurnames else femaleSurnames) ! i"
  by (simp add: getSurname_def length_lists)

lemma employeeAt_Inr:
  assumes "employeeAt p age i used w = Some (Inr (e, used', w'))"
  shows "\<exists>w1 w2 w3 w4.
           gender e = fst (getGender p i w) \<and>
           workload e = fst (getWorkload p i w1) \<and>
           name e = fst (getName p i (gender e) w2) \<and>
           surname e = fst (getSurname p i (gender e) w3) \<and>
           cpos w4 = cpos w \<and>
           generateUniqueBirthdate p age used w4 = Some (Inr (birthdate e, used', w'))"
proof -
  obtain g w1 where g: "getGender p i w = (g, w1)" by (cases "getGender p i w")
  obtain wl w2 where wl: "getWorkload p i w1 = (wl, w2)" by (cases "getWorkload p i w1")
  obtain n w3 where n: "getName p i g w2 = (n, w3)" by (cases "getName p i g w2")
  obtain s w4 where s: "getSurname p i g w3 = (s, w4)" by (cases "getSurname p i g w3")
  have c: "cpos w4 = cpos w"
    using cpos_getGender[of p i w] cpos_getWorkload[of p i w1] cpos_getName[of p i g w2]
      cpos_getSurname[of p i g w3] g wl n s by simp
  from assms g wl n s
  have b: "generateUniqueBirthdate p age used w4 = Some (Inr (birthdate e, used', w'))"
    and e: "gender e = g" "workload e = wl" "name e = n" "surname e = s"
    by (auto simp add: employeeAt_def split: option.splits sum.splits)
  show ?thesis using g wl n s c b e
    by (metis fst_conv)
qed

lemma generateUniqueBirthdate_Inr:
  assumes "generateUniqueBirthdate p age used w = Some (Inr (b, used', w'))"
  shows "\<exists>lo hi j ts.
           ageWindow p age (clock p (cpos w)) = Inr (Fin (of_int lo), Fin (of_int hi)) \<and>
           ts = lo + \<lfloor>random p j * of_int (hi - lo)\<rfloor> \<and> \<bar>ts\<bar> \<le> 8640000000000000 \<and>
           b = Str (toISOString ts) \<and>
           Fin (of_int ts) \<notin> used \<and> used' = insert (Fin (of_int ts)) used \<and>
           cpos w' = Suc (cpos w)"
proof -
  from assms obtain mn mx ts k tv where
    win: "ageWindow p age (clock p (cpos w)) = Inr (mn, mx)"
    and dr: "drawUnused p mn (js_sub mx mn) used (rpos w) = Some (ts, k)"
    and tc: "timeClip ts = Fin tv"
    and res: "b = Str (toISOString \<lfloor>tv\<rfloor>)" "used' = insert ts used"
      "w' = w\<lparr>cpos := Suc (cpos w), rpos := k\<rparr>"
    by (auto simp add: generateUniqueBirthdate_def Let_def
        split: sum.splits option.splits prod.splits jsnum.splits)
  from drawUnused_Some[OF dr] obtain j where
    fresh: "ts \<notin> used" and ts: "ts = candidate p mn (js_sub mx mn) j" by blast
  from timeClip_Fin[OF tc] obtain r where
    r: "ts = Fin r" "tv = of_int (toInteger r)" "\<bar>r\<bar> \<le> 8640000000000000" by blast
  from ts r(1) have "candidate p mn (js_sub mx mn) j = Fin r" by simp
  then obtain m dd where
    m: "mn = Fin m" "js_sub mx mn = Fin dd" "r = m + of_int \<lfloor>random p j * dd\<rfloor>"
    unfolding candidate_Fin by blast
  from m(1,2) obtain h where h: "mx = Fin h" "dd = h - m"
    unfolding js_sub_Fin by blast
  from ageWindow_Inr[OF win] m(1) h(1) obtain lo hi where
    lh: "m = of_int lo" "h = of_int hi" by auto
  define t where "t = lo + \<lfloor>random p j * of_int (hi - lo)\<rfloor>"
  have rr: "r = of_int t"
    using m(3) h(2) lh by (simp add: t_def)
  then have "toInteger r = t" by (simp only: toInteger_of_int)
  with r(2) res(1) have b: "b = Str (toISOString t)" by simp
  from rr r(3) have bound: "\<bar>t\<bar> \<le> 8640000000000000" by linarith
  from rr r(1) have "ts = Fin (of_int t)" by simp
  with win m(1) h(1) lh b bound fresh res t_def show ?thesis by auto
qed

lemma employeeAt_cpos:
  assumes "employeeAt p age i used w = Some (Inr (e, used', w'))"
  shows "cpos w' = Suc (cpos w)"
proof -
  from employeeAt_Inr[OF assms] obtain w4 where
    "cpos w4 = cpos w" "generateUniqueBirthdate p age used w4 = Some (Inr (birthdate e, used', w'))"
    by blast
  with generateUniqueBirthdate_Inr[of p age used w4 "birthdate e" used' w'] show ?thesis
    by auto
qed



subsection \<open>The whole run\<close>

lemma generateFrom_records:
  assumes run: "generateFrom p c age 0 used0 w0 [] = Some (Inr rs)" and w0: "cpos w0 = 0"
  shows "\<not> js_lt (Fin (real (length rs))) c"
    and "\<forall>i<length rs. js_lt (Fin (real i)) c \<and>
           (\<exists>used w used' w'. cpos w = i \<and>
              employeeAt p age i used w = Some (Inr (rs ! i, used', w')))"
proof -
  let ?Q = "\<lambda>out j. js_lt (Fin (real j)) c \<and>
              (\<exists>used w used' w'. cpos w = j \<and>
                 employeeAt p age j used w = Some (Inr (out ! j, used', w')))"
  let ?I = "\<lambda>i (used :: jsnum set) (w :: world) out. length out = i \<and> cpos w = i \<and> (\<forall>j<i. ?Q out j)"
  have init: "?I 0 used0 w0 []" using w0 by simp
  have step: "?I (Suc i) used' w' (out @ [emp])"
    if inv: "?I i used w out" and lt: "js_lt (Fin (real i)) c"
      and e: "employeeAt p age i used w = Some (Inr (emp, used', w'))"
    for i used w out emp used' w'
  proof -
    have len: "length (out @ [emp]) = Suc i" using inv by simp
    have cp: "cpos w' = Suc i" using employeeAt_cpos[OF e] inv by simp
    have "?Q (out @ [emp]) j" if "j < Suc i" for j
    proof (cases "j < i")
      case True
      with inv have "?Q out j" by blast
      moreover have "(out @ [emp]) ! j = out ! j" using True inv by (simp add: nth_append)
      ultimately show ?thesis by simp
    next
      case False
      with that have j: "j = i" by simp
      have "(out @ [emp]) ! i = emp" using inv by (simp add: nth_append)
      with lt e inv j show ?thesis by auto
    qed
    with len cp show ?thesis by blast
  qed
  have "\<exists>n used' w'. ?I n used' w' rs \<and> \<not> js_lt (Fin (real n)) c"
  proof (rule generateFrom_invariant[where I = ?I, OF run init])
    fix i used w out emp used' w'
    assume "?I i used w out" and "js_lt (Fin (real i)) c"
      and "employeeAt p age i used w = Some (Inr (emp, used', w'))"
    then show "?I (Suc i) used' w' (out @ [emp])" by (rule step)
  qed
  then obtain n used' w' where fin: "?I n used' w' rs" "\<not> js_lt (Fin (real n)) c" by blast
  then show "\<not> js_lt (Fin (real (length rs))) c" by simp
  from fin show "\<forall>i<length rs. ?Q rs i" by simp
qed

lemma main_Inr:
  assumes "main p dtoIn = Some (Inr rs)" and "rs \<noteq> []"
  shows "\<exists>c age. getProp dtoIn ''count'' = Inr (Num c) \<and> getProp dtoIn ''age'' = Inr age \<and>
           truthy age \<and> generateFrom p c age 0 {} \<lparr>rpos = 0, cpos = 0\<rparr> [] = Some (Inr rs)"
  using assms
  by (auto simp add: main_def split: sum.splits if_splits jsval.splits)

lemma main_records:
  assumes "main p dtoIn = Some (Inr rs)" and "i < length rs"
  shows "\<exists>age used w used' w'. getProp dtoIn ''age'' = Inr age \<and> cpos w = i \<and>
           employeeAt p age i used w = Some (Inr (rs ! i, used', w'))"
proof -
  from assms have "rs \<noteq> []" by auto
  from main_Inr[OF assms(1) this] obtain c age where
    "getProp dtoIn ''age'' = Inr age"
    "generateFrom p c age 0 {} \<lparr>rpos = 0, cpos = 0\<rparr> [] = Some (Inr rs)" by blast
  with generateFrom_records(2)[of p c age "{}" "\<lparr>rpos = 0, cpos = 0\<rparr>" rs] assms(2)
  show ?thesis by auto
qed



subsection \<open>Runs on the concrete inputs\<close>







lemma run_five: "main atNoon (request (Fin 5) age20to30) = Some (Inr fiveEmployees)"
  by code_simp












section \<open>The claims\<close>

text \<open>
  Claim C1: for an absent request (\<^verbatim>\<open>main\<close> called with \<^verbatim>\<open>null\<close> or \<^verbatim>\<open>undefined\<close>) the
  generator returns an empty sequence and raises no error.

  The code does not: line 10 destructures \<^verbatim>\<open>dtoIn\<close> before the guard \<^verbatim>\<open>!dtoIn\<close> of line 11
  is reached, and destructuring \<^verbatim>\<open>null\<close> or \<^verbatim>\<open>undefined\<close> throws a TypeError.
\<close>

theorem main_null_throws:
  "main p Null = Some (Inl TypeError) \<and> main p Undefined = Some (Inl TypeError)"
  by (simp add: main_def)

text \<open>The same on the platform \<open>atNoon\<close>.\<close>

theorem main_null_throws_witness:
  "main atNoon Null = Some (Inl TypeError) \<and> main atNoon Undefined = Some (Inl TypeError)"
  using main_null_throws[of atNoon] by simp




text \<open>
  Claim C3: for every request other than \<^verbatim>\<open>null\<close> and \<^verbatim>\<open>undefined\<close> whose \<^verbatim>\<open>count\<close> is
  not a number or whose \<^verbatim>\<open>age\<close> is absent (or falsy in any other way), the generator
  returns the empty sequence: no exception, no partial output.
\<close>

theorem main_invalid_request_empty:
  assumes "dtoIn \<noteq> Null" and "dtoIn \<noteq> Undefined"
    and "getProp dtoIn ''count'' = Inr count" and "getProp dtoIn ''age'' = Inr age"
    and "typeof count \<noteq> ''number'' \<or> \<not> truthy age"
  shows "main p dtoIn = Some (Inr [])"
  using assms by (auto simp add: main_def)

text \<open>A request whose count is a string, and a request without an age.\<close>

theorem main_invalid_request_empty_witness:
  "typeof (Str ''5'') \<noteq> ''number'' \<and>
   main atNoon (Obj [(''count'', Str ''5''), (''age'', age20to30)]) = Some (Inr []) \<and>
   \<not> truthy Undefined \<and>
   main atNoon (Obj [(''count'', Num (Fin 5))]) = Some (Inr [])"
proof -
  have a: "main atNoon (Obj [(''count'', Str ''5''), (''age'', age20to30)]) = Some (Inr [])"
    by (rule main_invalid_request_empty[where count = "Str ''5''" and age = age20to30]) simp_all
  have b: "main atNoon (Obj [(''count'', Num (Fin 5))]) = Some (Inr [])"
    by (rule main_invalid_request_empty[where count = "Num (Fin 5)" and age = Undefined])
      simp_all
  from a b show ?thesis by simp
qed




text \<open>
  Claim C5: within one invocation the birthdate values of the returned records are pairwise
  distinct at millisecond resolution; the set of timestamps already issued in the run
  enforces it. The theorem is about the strings the records hold: two different timestamps
  of the set have different renderings.
\<close>

theorem birthdates_distinct:
  assumes "main p dtoIn = Some (Inr rs)"
  shows "distinct (map birthdate rs)"
proof (cases "rs = []")
  case True
  then show ?thesis by simp
next
  case False
  from main_Inr[OF assms False] obtain c age where
    run: "generateFrom p c age 0 {} \<lparr>rpos = 0, cpos = 0\<rparr> [] = Some (Inr rs)" by blast
  let ?issued = "\<lambda>(used :: jsnum set) e. \<exists>ts. \<bar>ts\<bar> \<le> 8640000000000000 \<and>
                   birthdate e = Str (toISOString ts) \<and> Fin (of_int ts) \<in> used"
  let ?I = "\<lambda>(i :: nat) (used :: jsnum set) (w :: world) (out :: employee list).
              distinct (map birthdate out) \<and> (\<forall>e\<in>set out. ?issued used e)"
  have "\<exists>n used' w'. ?I n used' w' rs \<and> \<not> js_lt (Fin (real n)) c"
  proof (rule generateFrom_invariant[where I = ?I, OF run])
    show "?I 0 {} \<lparr>rpos = 0, cpos = 0\<rparr> []" by simp
  next
    fix i used w out emp used' w'
    assume inv: "?I i used w out"
      and e: "employeeAt p age i used w = Some (Inr (emp, used', w'))"
    from employeeAt_Inr[OF e] obtain w4 where
      "generateUniqueBirthdate p age used w4 = Some (Inr (birthdate emp, used', w'))" by blast
    from generateUniqueBirthdate_Inr[OF this] obtain ts where
      bound: "\<bar>ts\<bar> \<le> 8640000000000000"
      and iso: "birthdate emp = Str (toISOString ts)"
      and fresh: "Fin (of_int ts) \<notin> used"
      and used': "used' = insert (Fin (of_int ts)) used" by auto
    have new: "birthdate emp \<notin> birthdate ` set out"
    proof
      assume "birthdate emp \<in> birthdate ` set out"
      then obtain e0 where e0: "e0 \<in> set out" "birthdate e0 = birthdate emp" by auto
      with inv obtain ts0 where
        ts0: "\<bar>ts0\<bar> \<le> 8640000000000000" "birthdate e0 = Str (toISOString ts0)"
          "Fin (of_int ts0) \<in> used" by blast
      from e0(2) ts0(2) iso have "toISOString ts0 = toISOString ts" by simp
      from toISOString_inj[OF ts0(1) bound this] ts0(3) fresh show False by simp
    qed
    have "?issued used' e0" if "e0 \<in> set out" for e0
      using inv that used' by auto
    moreover have "?issued used' emp" using bound iso used' by auto
    ultimately show "?I (Suc i) used' w' (out @ [emp])" using inv new by auto
  qed
  then show ?thesis by blast
qed

text \<open>The five employees, two of whose draws were repeated.\<close>

theorem birthdates_distinct_witness:
  "main atNoon (request (Fin 5) age20to30) = Some (Inr fiveEmployees) \<and>
   distinct (map birthdate fiveEmployees)"
  using run_five birthdates_distinct[OF run_five] by simp





text \<open>
  Claim C8: for every index \<open>i < 16\<close> the record at index \<open>i\<close> has the \<open>i\<close>-th entry of the
  16-entry list of names of its gender as name and the \<open>i\<close>-th entry of the list of surnames
  of the same gender as surname; at index 0 a male gets \<^verbatim>\<open>Jan\<close> and \<^verbatim>\<open>Novak\<close>, a female
  \<^verbatim>\<open>Lucie\<close> and \<^verbatim>\<open>Novakova\<close> (written here without their accents; the theorem has the
  bytes of the source).
\<close>

theorem names_by_index:
  assumes "main p dtoIn = Some (Inr rs)" and "i < 16" and "i < length rs"
  shows "name (rs ! i) = (if gender (rs ! i) = Str ''male'' then maleNames else femaleNames) ! i \<and>
         surname (rs ! i) =
           (if gender (rs ! i) = Str ''male'' then maleSurnames else femaleSurnames) ! i \<and>
         length maleNames = 16 \<and> length femaleNames = 16 \<and>
         length maleSurnames = 16 \<and> length femaleSurnames = 16 \<and>
         fst (getName p 0 (Str ''male'') w) = Str ''Jan'' \<and>
         fst (getSurname p 0 (Str ''male'') w) = Str (''Nov'' @ [CHR 0xC3, CHR 0xA1] @ ''k'') \<and>
         fst (getName p 0 (Str ''female'') w) = Str ''Lucie'' \<and>
         fst (getSurname p 0 (Str ''female'') w) =
           Str (''Nov'' @ [CHR 0xC3, CHR 0xA1] @ ''kov'' @ [CHR 0xC3, CHR 0xA1])"
proof -
  from main_records[OF assms(1,3)] obtain a used v used' v' where
    "employeeAt p a i used v = Some (Inr (rs ! i, used', v'))" by blast
  from employeeAt_Inr[OF this] obtain w2 w3 where
    "name (rs ! i) = fst (getName p i (gender (rs ! i)) w2)"
    "surname (rs ! i) = fst (getSurname p i (gender (rs ! i)) w3)" by blast
  then have "name (rs ! i) =
      (if gender (rs ! i) = Str ''male'' then maleNames else femaleNames) ! i"
    and "surname (rs ! i) =
      (if gender (rs ! i) = Str ''male'' then maleSurnames else femaleSurnames) ! i"
    by (simp_all only: getName_first[OF assms(2)] getSurname_first[OF assms(2)])
  moreover have "fst (getName p 0 (Str ''male'') w) = Str ''Jan''"
    "fst (getName p 0 (Str ''female'') w) = Str ''Lucie''"
    by (simp_all add: getName_first maleNames_def femaleNames_def)
  moreover have
    "fst (getSurname p 0 (Str ''male'') w) = Str (''Nov'' @ [CHR 0xC3, CHR 0xA1] @ ''k'')"
    "fst (getSurname p 0 (Str ''female'') w) =
       Str (''Nov'' @ [CHR 0xC3, CHR 0xA1] @ ''kov'' @ [CHR 0xC3, CHR 0xA1])"
    by (simp_all add: getSurname_first maleSurnames_def femaleSurnames_def)
  ultimately show ?thesis by (simp add: length_lists)
qed

text \<open>The fifth of the five employees, a female.\<close>

theorem names_by_index_witness:
  "main atNoon (request (Fin 5) age20to30) = Some (Inr fiveEmployees) \<and>
   gender (fiveEmployees ! 4) = Str ''female'' \<and>
   name (fiveEmployees ! 4) = Str ''Eva'' \<and>
   surname (fiveEmployees ! 4) = Str ([CHR 0xC4, CHR 0x8C] @ ''ern'' @ [CHR 0xC3, CHR 0xA1])"
proof -
  have g: "gender (fiveEmployees ! 4) = Str ''female''" by (simp add: fiveEmployees_def)
  have "4 < length fiveEmployees" by (simp add: fiveEmployees_def)
  from names_by_index[OF run_five _ this] g run_five show ?thesis
    by (simp add: femaleNames_def femaleSurnames_def)
qed



text \<open>
  Claim C10: for every request object whose \<^verbatim>\<open>count\<close> is a number but NaN or negative,
  the generator returns the empty sequence: the body of the loop never runs.
\<close>

theorem main_nan_or_negative_count_empty:
  assumes "getProp dtoIn ''count'' = Inr (Num c)" and "c = NaN \<or> js_lt c (Fin 0)"
  shows "main p dtoIn = Some (Inr [])"
proof -
  have "\<not> js_lt (Fin (real 0)) c" using assms(2) by (cases c) auto
  then have "generateFrom p c age 0 {} \<lparr>rpos = 0, cpos = 0\<rparr> [] = Some (Inr [])" for age
    by (rule generateFrom_done)
  then show ?thesis using assms(1) by (cases dtoIn) (auto simp add: main_def)
qed

text \<open>The counts \<open>-1\<close>, NaN and \<open>-Infinity\<close>.\<close>

theorem main_nan_or_negative_count_empty_witness:
  "js_lt (Fin (- 1)) (Fin 0) \<and>
   main atNoon (request (Fin (- 1)) age20to30) = Some (Inr []) \<and>
   main atNoon (request NaN age20to30) = Some (Inr []) \<and>
   main atNoon (request NegInf age20to30) = Some (Inr [])"
proof -
  have "main atNoon (request c age20to30) = Some (Inr [])" if "c = NaN \<or> js_lt c (Fin 0)" for c
    by (rule main_nan_or_negative_count_empty[OF _ that]) (simp add: request_def)
  from this[of "Fin (- 1)"] this[of NaN] this[of NegInf] show ?thesis by simp
qed

end
